theory Spec2Isabelle
  imports Complex_Main
begin

section \<open>Python strings and format specifications\<close>

text \<open>
  The adapter of \<^verbatim>\<open>src/conda_rich/hooks.py\<close> only formats text and forwards calls to a
  rendering widget. Python strings are modelled as \<open>string\<close>; \<open>length\<close> plays the role of
  \<^verbatim>\<open>len\<close>, one list element per character.
\<close>

definition nl :: string where
  "nl = [CHR 0x0A]"

text \<open>\<^verbatim>\<open>sep.join(parts)\<close>.\<close>

fun join :: "string \<Rightarrow> string list \<Rightarrow> string" where
  "join sep [] = []"
| "join sep [x] = x"
| "join sep (x # y # ys) = x @ sep @ join sep (y # ys)"

text \<open>
  The format specifications \<^verbatim>\<open>{s:N}\<close> (a string is left-aligned by default) and
  \<^verbatim>\<open>{s:>N}\<close>: the field is filled with spaces up to \<open>N\<close> characters, and a longer string
  is never cut.
\<close>

definition fmt_left :: "nat \<Rightarrow> string \<Rightarrow> string" where
  "fmt_left width s = s @ replicate (width - length s) (CHR '' '')"

definition fmt_right :: "nat \<Rightarrow> string \<Rightarrow> string" where
  "fmt_right width s = replicate (width - length s) (CHR '' '') @ s"

section \<open>Errors\<close>

text \<open>
  \<open>CondaError\<close> is the one exception the adapter raises itself. \<open>ValueError\<close> is what
  \<^verbatim>\<open>max\<close> raises on an empty sequence and what rendering an \<^verbatim>\<open>int\<close> beyond the digit
  limit raises; \<open>TypeError\<close> is what iterating \<^verbatim>\<open>None\<close> raises.
\<close>

datatype error = CondaError string | ValueError | TypeError

text \<open>\<^verbatim>\<open>max(iterable)\<close>: the first item, replaced by every later item that is greater.\<close>

fun py_max :: "nat list \<Rightarrow> error + nat" where
  "py_max [] = Inl ValueError"
| "py_max (x # xs) = Inr (fold (\<lambda>item maxval. if maxval < item then item else maxval) xs x)"

section \<open>Rendering the values of a details mapping\<close>

text \<open>
  The values of a details mapping are \<^verbatim>\<open>str | int | bool\<close>; \<^verbatim>\<open>{value}\<close> renders them as
  \<^verbatim>\<open>str(value)\<close> does. CPython 3.11 and later refuse to render an \<^verbatim>\<open>int\<close> of more than
  \<^verbatim>\<open>sys.get_int_max_str_digits()\<close> decimal digits, the sign not counted, and raise
  \<open>ValueError\<close>. The limit is 4300 unless configured, 0 switches it off, and a configured
  limit is at least 640. It is the parameter \<open>max_str_digits\<close> of the model.
\<close>

datatype detail = Str_detail string | Int_detail int | Bool_detail bool

definition digit :: "nat \<Rightarrow> char" where
  "digit d = ''0123456789'' ! d"

fun str_nat :: "nat \<Rightarrow> string" where
  "str_nat n = (if n < 10 then [digit n] else str_nat (n div 10) @ [digit (n mod 10)])"

declare str_nat.simps [simp del]

definition decimal :: "int \<Rightarrow> string" where
  "decimal i = (if i < 0 then CHR ''-'' # str_nat (nat (- i)) else str_nat (nat i))"

definition str_int :: "nat \<Rightarrow> int \<Rightarrow> error + string" where
  "str_int max_str_digits i =
     (if 0 < max_str_digits \<and> max_str_digits < length (str_nat (nat \<bar>i\<bar>))
      then Inl ValueError
      else Inr (decimal i))"

fun py_str :: "nat \<Rightarrow> detail \<Rightarrow> error + string" where
  "py_str max_str_digits (Str_detail s) = Inr s"
| "py_str max_str_digits (Int_detail i) = str_int max_str_digits i"
| "py_str max_str_digits (Bool_detail b) = Inr (if b then ''True'' else ''False'')"

section \<open>The host: conda's context and the imported helpers\<close>

text \<open>
  \<^verbatim>\<open>conda.base.context.context\<close>, with the four attributes the adapter reads.
  \<open>active_prefix\<close> is \<open>None\<close> when no environment is active.
\<close>

record conda_context =
  active_prefix :: "string option"
  root_prefix :: string
  envs_dirs :: "string list"
  quiet :: bool

text \<open>
  What \<^verbatim>\<open>hooks.py\<close> imports and the repository does not define: the constant
  \<^verbatim>\<open>ROOT_ENV_NAME\<close> and \<^verbatim>\<open>paths_equal\<close> of conda, \<^verbatim>\<open>dirname\<close> and \<^verbatim>\<open>basename\<close> of
  \<^verbatim>\<open>os.path\<close>. They are parameters of the model.
\<close>

record host_api =
  ROOT_ENV_NAME :: string
  paths_equal :: "string \<Rightarrow> string \<Rightarrow> bool"
  dirname :: "string \<Rightarrow> string"
  basename :: "string \<Rightarrow> string"

text \<open>
  A concrete instance for evaluation: \<^verbatim>\<open>posixpath.basename\<close> and \<^verbatim>\<open>posixpath.dirname\<close>
  (everything after, respectively before, the last slash; trailing slashes of the head are
  stripped unless it consists of slashes only), conda's root name \<^verbatim>\<open>base\<close>, and path
  equality as equality of strings, which is what \<^verbatim>\<open>paths_equal\<close> decides on normalised
  absolute POSIX paths.
\<close>

definition posix_basename :: "string \<Rightarrow> string" where
  "posix_basename p = rev (takeWhile (\<lambda>c. c \<noteq> CHR ''/'') (rev p))"

definition posix_dirname :: "string \<Rightarrow> string" where
  "posix_dirname p =
     (let head = rev (dropWhile (\<lambda>c. c \<noteq> CHR ''/'') (rev p))
      in if head \<noteq> [] \<and> head \<noteq> replicate (length head) (CHR ''/'')
         then rev (dropWhile (\<lambda>c. c = CHR ''/'') (rev head))
         else head)"

definition posix_api :: host_api where
  "posix_api =
     \<lparr>ROOT_ENV_NAME = ''base'', paths_equal = (\<lambda>path1 path2. path1 = path2),
      dirname = posix_dirname, basename = posix_basename\<rparr>"

section \<open>Effects: the trace of calls on external objects\<close>

text \<open>
  The adapter owns no state besides the fields of its progress bars. Everything else it
  does is a call on an object of the host or of the rendering library: a write to the file
  an output sink yields, or a method call on a \<^verbatim>\<open>rich.progress.Progress\<close> widget. The
  world is the trace of these calls, oldest first. Objects are named by their addresses.
\<close>

type_synonym sink = nat
type_synonym widget = nat
type_synonym task_id = nat

datatype event =
    Write sink string
  | Add_task widget string rat
  | Update_completed widget task_id rat
  | Update_visible widget task_id bool
  | Stop_task widget task_id
  | Refresh widget

type_synonym world = "event list"

text \<open>
  \<^verbatim>\<open>Progress.add_task(description, total=...)\<close> returns the widget's next task id; the ids
  of a widget count its tasks from 0.
\<close>

fun adds_task_on :: "widget \<Rightarrow> event \<Rightarrow> bool" where
  "adds_task_on p (Add_task p' d tot) = (p' = p)"
| "adds_task_on p e = False"

definition add_task :: "widget \<Rightarrow> string \<Rightarrow> rat \<Rightarrow> world \<Rightarrow> task_id \<times> world" where
  "add_task p d tot w = (length (filter (adds_task_on p) w), w @ [Add_task p d tot])"

text \<open>
  The context managers handed to the interactive progress bar: \<^verbatim>\<open>isinstance(cm, Progress)\<close>
  holds for the widgets of the rendering library and for nothing else.
\<close>

datatype context_manager = Progress widget | Other_manager nat

section \<open>The progress bars\<close>

text \<open>\<^verbatim>\<open>ProgressBarBase.__init__\<close> of the host stores the description and the sink.\<close>

record ProgressBarBase =
  description :: string
  io_context_manager :: sink

subsection \<open>\<^verbatim>\<open>QuietProgressBar\<close>\<close>

text \<open>
  The constructor enters the sink and writes one string to its file. The three methods
  are \<^verbatim>\<open>pass\<close>.
\<close>

definition QuietProgressBar_init :: "string \<Rightarrow> sink \<Rightarrow> world \<Rightarrow> ProgressBarBase \<times> world" where
  "QuietProgressBar_init d io w =
     (\<lparr>description = d, io_context_manager = io\<rparr>,
      w @ [Write io (''...downloading '' @ d @ ''...'' @ nl)])"

definition Quiet_update_to :: "ProgressBarBase \<Rightarrow> rat \<Rightarrow> world \<Rightarrow> ProgressBarBase \<times> world" where
  "Quiet_update_to self fraction w = (self, w)"

definition Quiet_refresh :: "ProgressBarBase \<Rightarrow> world \<Rightarrow> ProgressBarBase \<times> world" where
  "Quiet_refresh self w = (self, w)"

definition Quiet_close :: "ProgressBarBase \<Rightarrow> world \<Rightarrow> ProgressBarBase \<times> world" where
  "Quiet_close self w = (self, w)"

subsection \<open>\<^verbatim>\<open>RichProgressBar\<close>\<close>

record RichProgressBar = ProgressBarBase +
  progress :: "widget option"
  task :: task_id

text \<open>
  The loop of the constructor: \<open>self.progress\<close> starts as \<open>None\<close>; the first element that
  is a \<open>Progress\<close> is stored and the loop is left.
\<close>

fun find_progress :: "context_manager list \<Rightarrow> widget option" where
  "find_progress [] = None"
| "find_progress (Progress p # cms) = Some p"
| "find_progress (Other_manager m # cms) = find_progress cms"

text \<open>
  \<open>progress_context_managers\<close> defaults to \<open>None\<close>, which the loop cannot iterate. An error
  leaves the world as it was when the exception was raised.
\<close>

definition RichProgressBar_init ::
  "string \<Rightarrow> sink \<Rightarrow> context_manager list option \<Rightarrow> world \<Rightarrow> (error + RichProgressBar) \<times> world"
where
  "RichProgressBar_init d io progress_context_managers w =
     (case progress_context_managers of
        None \<Rightarrow> (Inl TypeError, w)
      | Some cms \<Rightarrow>
          (case find_progress cms of
             None \<Rightarrow>
               (Inl (CondaError ''Rich is configured, but there is no progress bar available''), w)
           | Some p \<Rightarrow>
               (case add_task p d 1 w of
                  (t, w') \<Rightarrow>
                    (Inr \<lparr>description = d, io_context_manager = io, progress = Some p, task = t\<rparr>,
                     w'))))"

definition Rich_update_to :: "RichProgressBar \<Rightarrow> rat \<Rightarrow> world \<Rightarrow> RichProgressBar \<times> world" where
  "Rich_update_to self fraction w =
     (case progress self of
        None \<Rightarrow> (self, w)
      | Some p \<Rightarrow>
          (let w1 = w @ [Update_completed p (task self) fraction]
           in if fraction = 1 then (self, w1 @ [Update_visible p (task self) False])
              else (self, w1)))"

definition Rich_close :: "RichProgressBar \<Rightarrow> world \<Rightarrow> RichProgressBar \<times> world" where
  "Rich_close self w =
     (case progress self of
        None \<Rightarrow> (self, w)
      | Some p \<Rightarrow> (self, w @ [Stop_task p (task self)]))"

definition Rich_refresh :: "RichProgressBar \<Rightarrow> world \<Rightarrow> RichProgressBar \<times> world" where
  "Rich_refresh self w =
     (case progress self of
        None \<Rightarrow> (self, w)
      | Some p \<Rightarrow> (self, w @ [Refresh p]))"

section \<open>\<^verbatim>\<open>RichReporterRenderer\<close>\<close>

subsection \<open>\<^verbatim>\<open>detail_view\<close>\<close>

text \<open>
  The mapping is given by its items in mapping order. \<open>table_parts\<close> starts as the list
  holding the empty string, gets one row per item and a final newline string, and is
  joined with newlines. A value that cannot be rendered makes the f-string of its row
  raise, which ends the loop and the call.
\<close>

definition detail_row :: "nat \<Rightarrow> nat \<Rightarrow> string \<times> detail \<Rightarrow> error + string" where
  "detail_row max_str_digits longest_header item =
     (case py_str max_str_digits (snd item) of
        Inl e \<Rightarrow> Inl e
      | Inr text \<Rightarrow> Inr ('' '' @ fmt_right longest_header (fst item) @ '' : '' @ text))"

fun detail_rows ::
  "nat \<Rightarrow> nat \<Rightarrow> (string \<times> detail) list \<Rightarrow> string list \<Rightarrow> error + string list"
where
  "detail_rows max_str_digits longest_header [] table_parts = Inr table_parts"
| "detail_rows max_str_digits longest_header (item # items) table_parts =
     (case detail_row max_str_digits longest_header item of
        Inl e \<Rightarrow> Inl e
      | Inr row \<Rightarrow> detail_rows max_str_digits longest_header items (table_parts @ [row]))"

definition detail_view :: "nat \<Rightarrow> (string \<times> detail) list \<Rightarrow> error + string" where
  "detail_view max_str_digits data =
     (case py_max (map length (map fst data)) of
        Inl e \<Rightarrow> Inl e
      | Inr longest_header \<Rightarrow>
          (case detail_rows max_str_digits longest_header data [''''] of
             Inl e \<Rightarrow> Inl e
           | Inr table_parts \<Rightarrow> Inr (join nl (table_parts @ [nl]))))"

subsection \<open>\<^verbatim>\<open>envs_list\<close>\<close>

definition disp_env :: "host_api \<Rightarrow> conda_context \<Rightarrow> string \<Rightarrow> string" where
  "disp_env api ctx prefix =
     (let active = (if Some prefix = active_prefix ctx then ''*'' else '' '');
          name =
            (if prefix = root_prefix ctx then ROOT_ENV_NAME api
             else if list_ex (\<lambda>envs_dir. paths_equal api envs_dir (dirname api prefix))
                       (envs_dirs ctx)
                  then basename api prefix
                  else '''')
      in fmt_left 20 name @ '' '' @ active @ '' '' @ prefix)"

text \<open>The list \<open>output\<close> as it stands when it is joined, and the string returned.\<close>

definition envs_list_output :: "host_api \<Rightarrow> conda_context \<Rightarrow> string list \<Rightarrow> string list" where
  "envs_list_output api ctx data =
     fold (\<lambda>env_prefix output. output @ [disp_env api ctx env_prefix]) data
       ['''', ''# conda environments:'', ''#'']
     @ [nl]"

definition envs_list :: "host_api \<Rightarrow> conda_context \<Rightarrow> string list \<Rightarrow> string" where
  "envs_list api ctx data = join nl (envs_list_output api ctx data)"

subsection \<open>\<^verbatim>\<open>progress_bar\<close>\<close>

text \<open>
  The keyword arguments are passed on to the constructor chosen; the quiet one ignores
  them, the interactive one reads \<open>progress_context_managers\<close> from them.
\<close>

datatype progress_bar = Quiet ProgressBarBase | Rich RichProgressBar

definition progress_bar ::
  "conda_context \<Rightarrow> string \<Rightarrow> sink \<Rightarrow> context_manager list option \<Rightarrow> world
     \<Rightarrow> (error + progress_bar) \<times> world"
where
  "progress_bar ctx d io kwargs w =
     (if quiet ctx
      then (case QuietProgressBar_init d io w of (bar, w') \<Rightarrow> (Inr (Quiet bar), w'))
      else (case RichProgressBar_init d io kwargs w of
              (Inl e, w') \<Rightarrow> (Inl e, w')
            | (Inr bar, w') \<Rightarrow> (Inr (Rich bar), w')))"

section \<open>Reading a rendered row\<close>

text \<open>
  A row of the environment listing ends with the marker, a space and the prefix. Given the
  prefix the row was rendered for, the marker is the character two places before it.
\<close>

definition row_marker :: "string \<Rightarrow> string \<Rightarrow> char" where
  "row_marker row prefix = row ! (length row - length prefix - 2)"

text \<open>The display name field of a row: what stands before the space, the marker, the space and
  the prefix.\<close>

definition row_name :: "string \<Rightarrow> string \<Rightarrow> string" where
  "row_name row prefix = take (length row - length prefix - 3) row"

text \<open>The rows of the listing: \<open>output\<close> without its three header lines and the final newline.\<close>

definition envs_rows :: "host_api \<Rightarrow> conda_context \<Rightarrow> string list \<Rightarrow> string list" where
  "envs_rows api ctx data = butlast (drop 3 (envs_list_output api ctx data))"

text \<open>How many rows of the listing carry the marker \<^verbatim>\<open>*\<close>.\<close>

definition marked_active :: "host_api \<Rightarrow> conda_context \<Rightarrow> string list \<Rightarrow> nat" where
  "marked_active api ctx data =
     length (filter (\<lambda>(row, prefix). row_marker row prefix = CHR ''*'')
       (zip (envs_rows api ctx data) data))"

section \<open>Reading a details mapping\<close>

text \<open>
  A value fits the digit limit when it is no \<^verbatim>\<open>int\<close>, when the limit is off, or when it has
  at most that many decimal digits. The text of a value is what \<^verbatim>\<open>str\<close> returns for it when
  no limit stands in the way.
\<close>

fun fits :: "nat \<Rightarrow> detail \<Rightarrow> bool" where
  "fits max_str_digits (Int_detail i) =
     (max_str_digits = 0 \<or> length (str_nat (nat \<bar>i\<bar>)) \<le> max_str_digits)"
| "fits max_str_digits v = True"

fun rendered :: "detail \<Rightarrow> string" where
  "rendered (Str_detail s) = s"
| "rendered (Int_detail i) = decimal i"
| "rendered (Bool_detail b) = (if b then ''True'' else ''False'')"

section \<open>Reading the trace\<close>

text \<open>The calls that set a task's visibility.\<close>

fun sets_visibility :: "event \<Rightarrow> bool" where
  "sets_visibility (Update_visible p t v) = True"
| "sets_visibility e = False"

section \<open>Auxiliary facts\<close>

text \<open>The append loops build a map, \<^verbatim>\<open>max\<close> of a non-empty sequence is its maximum, and
  the scan of the constructor finds the first widget.\<close>

lemma fold_snoc_map: "fold (\<lambda>x acc. acc @ [f x]) xs ys = ys @ map f xs"
  by (induction xs arbitrary: ys) simp_all

lemma py_max_Max: "xs \<noteq> [] \<Longrightarrow> py_max xs = Inr (Max (set xs))"
proof (cases xs)
  case Nil
  assume "xs \<noteq> []"
  with Nil show ?thesis by simp
next
  case (Cons x ys)
  have "(\<lambda>item maxval. if maxval < item then item else maxval) = (max :: nat \<Rightarrow> nat \<Rightarrow> nat)"
    by (intro ext) (simp add: max_def)
  with Cons Max.set_eq_fold [of x ys] show ?thesis
    by simp
qed

lemma envs_list_output_map:
  "envs_list_output api ctx data =
     ['''', ''# conda environments:'', ''#''] @ map (disp_env api ctx) data @ [nl]"
  by (simp add: envs_list_output_def fold_snoc_map)

lemma envs_rows_map: "envs_rows api ctx data = map (disp_env api ctx) data"
  by (simp add: envs_rows_def envs_list_output_map butlast_append)

lemma row_marker_disp_env:
  "row_marker (disp_env api ctx prefix) prefix =
     (if Some prefix = active_prefix ctx then CHR ''*'' else CHR '' '')"
  by (simp add: row_marker_def disp_env_def Let_def nth_append)

lemma marked_active_filter:
  "marked_active api ctx data = length (filter (\<lambda>prefix. Some prefix = active_prefix ctx) data)"
proof -
  have "filter (\<lambda>(row, prefix). row_marker row prefix = CHR ''*'')
          (zip (map (disp_env api ctx) xs) xs)
        = map (\<lambda>prefix. (disp_env api ctx prefix, prefix))
            (filter (\<lambda>prefix. Some prefix = active_prefix ctx) xs)" for xs
    by (induction xs) (simp_all add: row_marker_disp_env)
  then show ?thesis
    by (simp add: marked_active_def envs_rows_map)
qed

lemma row_name_disp_env:
  "row_name (disp_env api ctx prefix) prefix =
     fmt_left 20
       (if prefix = root_prefix ctx then ROOT_ENV_NAME api
        else if \<exists>envs_dir \<in> set (envs_dirs ctx). paths_equal api envs_dir (dirname api prefix)
             then basename api prefix
             else '''')"
  by (simp add: row_name_def disp_env_def Let_def list_ex_iff)

lemma find_progress_first:
  "\<forall>q. Progress q \<notin> set before \<Longrightarrow> find_progress (before @ Progress p # after) = Some p"
proof (induction before)
  case Nil
  show ?case by simp
next
  case (Cons cm before)
  then show ?case by (cases cm) auto
qed

lemma find_progress_None: "find_progress cms = None \<longleftrightarrow> (\<forall>q. Progress q \<notin> set cms)"
proof (induction cms)
  case Nil
  show ?case by simp
next
  case (Cons cm cms)
  then show ?case by (cases cm) auto
qed

lemma first_progress_split:
  assumes "Progress q \<in> set cms"
  shows "\<exists>before p after. cms = before @ Progress p # after \<and> (\<forall>r. Progress r \<notin> set before)"
  using assms
proof (induction cms)
  case Nil
  then show ?case by simp
next
  case (Cons cm cms)
  show ?case
  proof (cases cm)
    case (Progress p)
    then have "cm # cms = [] @ Progress p # cms \<and> (\<forall>r. Progress r \<notin> set [])"
      by simp
    then show ?thesis by blast
  next
    case (Other_manager m)
    with Cons.prems have "Progress q \<in> set cms" by simp
    from Cons.IH [OF this] obtain before p after
      where "cms = before @ Progress p # after" "\<forall>r. Progress r \<notin> set before"
      by blast
    with Other_manager
    have "cm # cms = (cm # before) @ Progress p # after \<and> (\<forall>r. Progress r \<notin> set (cm # before))"
      by simp
    then show ?thesis by blast
  qed
qed

text \<open>
  The number of digits of a natural number, the two outcomes of rendering a value, and
  the two outcomes of the loop of \<open>detail_view\<close>.
\<close>

lemma str_nat_length:
  "length (str_nat n) = (if n < 10 then 1 else Suc (length (str_nat (n div 10))))"
  by (subst str_nat.simps) simp

lemma str_nat_nonempty: "0 < length (str_nat n)"
  by (subst str_nat_length) simp

lemma digits_le_iff: "0 < k \<Longrightarrow> length (str_nat n) \<le> k \<longleftrightarrow> n < 10 ^ k"
proof (induction n arbitrary: k rule: str_nat.induct)
  case (1 n)
  from "1.prems" obtain j where k: "k = Suc j"
    by (cases k) simp_all
  show ?case
  proof (cases "n < 10")
    case True
    have "(1::nat) \<le> 10 ^ j"
      by simp
    with True have "n < 10 * 10 ^ j"
      by linarith
    then have "n < 10 ^ k"
      by (simp add: k)
    with True show ?thesis
      by (simp add: str_nat_length [of n] k)
  next
    case False
    have step: "n < 10 ^ k \<longleftrightarrow> n div 10 < 10 ^ j"
      by (simp add: k div_less_iff_less_mult mult.commute)
    show ?thesis
    proof (cases "j = 0")
      case True
      with False str_nat_nonempty [of "n div 10"] show ?thesis
        by (simp add: str_nat_length [of n] k)
    next
      case nonzero: False
      with False "1.IH" [of j] have "length (str_nat (n div 10)) \<le> j \<longleftrightarrow> n div 10 < 10 ^ j"
        by simp
      with False step show ?thesis
        by (simp add: str_nat_length [of n] k)
    qed
  qed
qed

lemma not_fits_over_limit:
  assumes "0 < max_str_digits" and "10 ^ max_str_digits \<le> \<bar>i\<bar>"
  shows "\<not> fits max_str_digits (Int_detail i)"
proof -
  from assms(2) have "\<not> nat \<bar>i\<bar> < 10 ^ max_str_digits"
    by (simp add: nat_less_iff)
  with assms(1) show ?thesis
    by (simp add: digits_le_iff)
qed

lemma py_str_fits: "fits max_str_digits v \<Longrightarrow> py_str max_str_digits v = Inr (rendered v)"
  by (cases v) (auto simp: str_int_def)

lemma py_str_unfit: "\<not> fits max_str_digits v \<Longrightarrow> py_str max_str_digits v = Inl ValueError"
  by (cases v) (auto simp: str_int_def)

lemma detail_rows_fits:
  "\<forall>item \<in> set data. fits max_str_digits (snd item) \<Longrightarrow>
   detail_rows max_str_digits longest data parts =
     Inr (parts @
       map (\<lambda>item. '' '' @ fmt_right longest (fst item) @ '' : '' @ rendered (snd item)) data)"
  by (induction data arbitrary: parts) (simp_all add: detail_row_def py_str_fits)

lemma detail_rows_unfit:
  "item \<in> set data \<Longrightarrow> \<not> fits max_str_digits (snd item) \<Longrightarrow>
   detail_rows max_str_digits longest data parts = Inl ValueError"
proof (induction data arbitrary: parts)
  case Nil
  then show ?case by simp
next
  case (Cons x xs)
  show ?case
  proof (cases "fits max_str_digits (snd x)")
    case True
    with Cons.prems have "item \<in> set xs"
      by auto
    with True Cons.IH Cons.prems(2) show ?thesis
      by (simp add: detail_row_def py_str_fits)
  next
    case False
    then show ?thesis
      by (simp add: detail_row_def py_str_unfit)
  qed
qed

lemma detail_view_unfit:
  assumes "item \<in> set data" and "\<not> fits max_str_digits (snd item)"
  shows "detail_view max_str_digits data = Inl ValueError"
proof -
  from assms(1) have "map length (map fst data) \<noteq> []"
    by auto
  then have m: "py_max (map length (map fst data)) = Inr (Max (set (map length (map fst data))))"
    by (rule py_max_Max)
  show ?thesis
    unfolding detail_view_def m by (simp add: detail_rows_unfit [OF assms])
qed

lemma detail_view_fits:
  assumes "data \<noteq> []" and "\<forall>item \<in> set data. fits max_str_digits (snd item)"
  shows "detail_view max_str_digits data =
    Inr (join nl
      ('''' #
       map (\<lambda>item. '' '' @ fmt_right (Max (length ` fst ` set data)) (fst item) @ '' : ''
              @ rendered (snd item)) data
       @ [nl]))"
proof -
  from assms(1) have "map length (map fst data) \<noteq> []"
    by simp
  then have "py_max (map length (map fst data)) = Inr (Max (set (map length (map fst data))))"
    by (rule py_max_Max)
  then have m: "py_max (map length (map fst data)) = Inr (Max (length ` fst ` set data))"
    by (simp add: image_image)
  show ?thesis
    unfolding detail_view_def m by (simp add: detail_rows_fits [OF assms(2)])
qed

lemma detail_view_error: "detail_view max_str_digits data = Inl e \<Longrightarrow> e = ValueError"
proof (cases "data = []")
  case True
  assume "detail_view max_str_digits data = Inl e"
  with True show ?thesis
    by (simp add: detail_view_def)
next
  case False
  assume failed: "detail_view max_str_digits data = Inl e"
  show ?thesis
  proof (cases "\<forall>item \<in> set data. fits max_str_digits (snd item)")
    case True
    from detail_view_fits [OF False True] failed show ?thesis
      by simp
  next
    case False
    then obtain item where "item \<in> set data" "\<not> fits max_str_digits (snd item)"
      by blast
    from detail_view_unfit [OF this] failed show ?thesis
      by simp
  qed
qed

section \<open>The environment listing\<close>

text \<open>
  Claim C1, as it holds on the code. \<open>disp_env\<close> decides the marker of each row on its own:
  a row carries \<^verbatim>\<open>*\<close> exactly when its prefix equals \<open>context.active_prefix\<close>, and a
  space otherwise. So the number of marked rows is the number of occurrences of the active
  prefix in the list: it is one when the active prefix occurs once, and it is not one when
  the active prefix is absent or repeated.
\<close>

theorem envs_list_marks_active_prefix:
  "marked_active api ctx data = length (filter (\<lambda>prefix. Some prefix = active_prefix ctx) data)
   \<and> (\<forall>i < length data.
         row_marker (envs_rows api ctx data ! i) (data ! i) =
           (if Some (data ! i) = active_prefix ctx then CHR ''*'' else CHR '' ''))
   \<and> (active_prefix ctx = Some a \<and> count_list data a = 1 \<longrightarrow> marked_active api ctx data = 1)"
proof -
  have "length (filter (\<lambda>prefix. Some prefix = Some a) xs) = count_list xs a" for xs
    by (induction xs) auto
  then show ?thesis
    by (simp add: marked_active_filter envs_rows_map row_marker_disp_env)
qed

theorem envs_list_marks_active_prefix_witness:
  "marked_active posix_api
     \<lparr>active_prefix = Some ''/opt/conda/envs/dev'', root_prefix = ''/opt/conda'',
      envs_dirs = [''/opt/conda/envs''], quiet = False\<rparr>
     [''/opt/conda'', ''/opt/conda/envs/dev'', ''/tmp/elsewhere''] = 1
   \<and> row_marker
       (envs_rows posix_api
          \<lparr>active_prefix = Some ''/opt/conda/envs/dev'', root_prefix = ''/opt/conda'',
           envs_dirs = [''/opt/conda/envs''], quiet = False\<rparr>
          [''/opt/conda'', ''/opt/conda/envs/dev'', ''/tmp/elsewhere''] ! 1)
       ''/opt/conda/envs/dev'' = CHR ''*''
   \<and> row_marker
       (envs_rows posix_api
          \<lparr>active_prefix = Some ''/opt/conda/envs/dev'', root_prefix = ''/opt/conda'',
           envs_dirs = [''/opt/conda/envs''], quiet = False\<rparr>
          [''/opt/conda'', ''/opt/conda/envs/dev'', ''/tmp/elsewhere''] ! 2)
       ''/tmp/elsewhere'' = CHR '' ''"
  using envs_list_marks_active_prefix
    [of posix_api
       "\<lparr>active_prefix = Some ''/opt/conda/envs/dev'', root_prefix = ''/opt/conda'',
         envs_dirs = [''/opt/conda/envs''], quiet = False\<rparr>"
       "[''/opt/conda'', ''/opt/conda/envs/dev'', ''/tmp/elsewhere'']" "''/opt/conda/envs/dev''"]
  by (simp add: All_less_Suc numeral_2_eq_2)

text \<open>
  Claim C1 as stated asks for exactly one marked row whatever the list holds. With the
  active prefix absent from the list no row is marked, and the rendered string has no
  \<^verbatim>\<open>*\<close> at all; with the active prefix listed twice, two rows are marked.
\<close>

theorem envs_list_marks_exactly_one_counterexample:
  "marked_active posix_api
     \<lparr>active_prefix = Some ''/opt/conda/envs/dev'', root_prefix = ''/opt/conda'',
      envs_dirs = [''/opt/conda/envs''], quiet = False\<rparr>
     [''/opt/conda'', ''/tmp/elsewhere''] = 0
   \<and> CHR ''*'' \<notin> set (envs_list posix_api
     \<lparr>active_prefix = Some ''/opt/conda/envs/dev'', root_prefix = ''/opt/conda'',
      envs_dirs = [''/opt/conda/envs''], quiet = False\<rparr>
     [''/opt/conda'', ''/tmp/elsewhere''])
   \<and> marked_active posix_api
     \<lparr>active_prefix = Some ''/opt/conda/envs/dev'', root_prefix = ''/opt/conda'',
      envs_dirs = [''/opt/conda/envs''], quiet = False\<rparr>
     [''/opt/conda/envs/dev'', ''/opt/conda/envs/dev''] = 2"
  by code_simp

text \<open>
  Claim C3. The row of every prefix of the list shows, in its name field of 20 columns,
  the reserved root name when the prefix is \<open>context.root_prefix\<close>; otherwise the base name of
  the prefix when \<open>paths_equal\<close> relates one of \<open>context.envs_dirs\<close> to the directory of the
  prefix; otherwise the empty name. The string returned is the three header lines, one row
  per prefix in list order and a final newline string, joined with newlines.
\<close>

theorem envs_list_display_names:
  assumes "i < length data"
  shows "length (envs_rows api ctx data) = length data
    \<and> envs_list api ctx data =
        join nl (['''', ''# conda environments:'', ''#''] @ envs_rows api ctx data @ [nl])
    \<and> (data ! i = root_prefix ctx \<longrightarrow>
         row_name (envs_rows api ctx data ! i) (data ! i) = fmt_left 20 (ROOT_ENV_NAME api))
    \<and> (data ! i \<noteq> root_prefix ctx
         \<and> (\<exists>envs_dir \<in> set (envs_dirs ctx). paths_equal api envs_dir (dirname api (data ! i)))
         \<longrightarrow> row_name (envs_rows api ctx data ! i) (data ! i) = fmt_left 20 (basename api (data ! i)))
    \<and> (data ! i \<noteq> root_prefix ctx
         \<and> \<not> (\<exists>envs_dir \<in> set (envs_dirs ctx). paths_equal api envs_dir (dirname api (data ! i)))
         \<longrightarrow> row_name (envs_rows api ctx data ! i) (data ! i) = fmt_left 20 '''')"
  using assms
  by (simp add: envs_rows_map envs_list_def envs_list_output_map row_name_disp_env)

theorem envs_list_display_names_witness:
  "row_name
     (envs_rows posix_api
        \<lparr>active_prefix = Some ''/opt/conda/envs/dev'', root_prefix = ''/opt/conda'',
         envs_dirs = [''/opt/conda/envs''], quiet = False\<rparr>
        [''/opt/conda'', ''/opt/conda/envs/dev'', ''/tmp/elsewhere''] ! 0)
     ''/opt/conda'' = ''base                ''
   \<and> row_name
     (envs_rows posix_api
        \<lparr>active_prefix = Some ''/opt/conda/envs/dev'', root_prefix = ''/opt/conda'',
         envs_dirs = [''/opt/conda/envs''], quiet = False\<rparr>
        [''/opt/conda'', ''/opt/conda/envs/dev'', ''/tmp/elsewhere''] ! 1)
     ''/opt/conda/envs/dev'' = ''dev                 ''
   \<and> row_name
     (envs_rows posix_api
        \<lparr>active_prefix = Some ''/opt/conda/envs/dev'', root_prefix = ''/opt/conda'',
         envs_dirs = [''/opt/conda/envs''], quiet = False\<rparr>
        [''/opt/conda'', ''/opt/conda/envs/dev'', ''/tmp/elsewhere''] ! 2)
     ''/tmp/elsewhere'' = ''                    ''
   \<and> envs_list posix_api
        \<lparr>active_prefix = Some ''/opt/conda/envs/dev'', root_prefix = ''/opt/conda'',
         envs_dirs = [''/opt/conda/envs''], quiet = False\<rparr>
        [''/opt/conda'', ''/opt/conda/envs/dev'', ''/tmp/elsewhere'']
      = ''\<newline># conda environments:\<newline>#\<newline>base                   /opt/conda\<newline>dev                  * /opt/conda/envs/dev\<newline>                       /tmp/elsewhere\<newline>\<newline>''"
proof -
  let ?ctx = "\<lparr>active_prefix = Some ''/opt/conda/envs/dev'', root_prefix = ''/opt/conda'',
         envs_dirs = [''/opt/conda/envs''], quiet = False\<rparr>"
  let ?data = "[''/opt/conda'', ''/opt/conda/envs/dev'', ''/tmp/elsewhere'']"
  have rows: "envs_rows posix_api ?ctx ?data =
     [''base                   /opt/conda'',
      ''dev                  * /opt/conda/envs/dev'',
      ''                       /tmp/elsewhere'']"
    by code_simp
  have api: "ROOT_ENV_NAME posix_api = ''base''" "paths_equal posix_api = (=)"
    "dirname posix_api = posix_dirname" "basename posix_api = posix_basename"
    by (simp_all add: posix_api_def)
  have paths: "posix_dirname ''/opt/conda/envs/dev'' = ''/opt/conda/envs''"
    "posix_dirname ''/tmp/elsewhere'' = ''/tmp''"
    "posix_basename ''/opt/conda/envs/dev'' = ''dev''"
    by code_simp+
  have pad: "fmt_left 20 ''base'' = ''base                ''"
    "fmt_left 20 ''dev'' = ''dev                 ''"
    "fmt_left 20 [] = ''                    ''"
    by code_simp+
  have "0 < length ?data" "1 < length ?data" "2 < length ?data"
    by simp_all
  from envs_list_display_names [OF this(1), of posix_api ?ctx]
    envs_list_display_names [OF this(2), of posix_api ?ctx]
    envs_list_display_names [OF this(3), of posix_api ?ctx]
  show ?thesis
    by (simp add: rows api paths pad nl_def)
qed

section \<open>The detail view\<close>

text \<open>
  Claim C2, as it holds on the code. For a non-empty mapping whose values all fit the digit
  limit of the interpreter, \<open>detail_view\<close> returns the rows of the mapping in mapping order,
  each of the form \<^verbatim>\<open>' {key:>longest} : {value}'\<close>: a space, the key padded on the left with
  spaces, \<^verbatim>\<open>' : '\<close> and the value, where \<open>longest\<close> is the length of the longest key, so
  that every padded key is exactly \<open>longest\<close> characters wide.
\<close>

theorem detail_view_rows_within_limit:
  assumes "data \<noteq> []" and "\<forall>(key, val) \<in> set data. fits max_str_digits val"
  shows "detail_view max_str_digits data =
           Inr (join nl
             ('''' #
              map (\<lambda>(key, val).
                     '' '' @ replicate (Max (length ` fst ` set data) - length key) (CHR '' '')
                     @ key @ '' : '' @ rendered val) data
              @ [nl]))
         \<and> (\<forall>(key, val) \<in> set data.
               length (replicate (Max (length ` fst ` set data) - length key) (CHR '' '') @ key)
               = Max (length ` fst ` set data))"
proof -
  let ?L = "Max (length ` fst ` set data)"
  have r: "(\<lambda>item. '' '' @ fmt_right ?L (fst item) @ '' : '' @ rendered (snd item)) =
           (\<lambda>(key, val).
              '' '' @ replicate (?L - length key) (CHR '' '') @ key @ '' : '' @ rendered val)"
    by (intro ext) (simp add: fmt_right_def split_beta)
  have "length key \<le> ?L" if "(key, val) \<in> set data" for key val
  proof -
    from that have "length key \<in> length ` fst ` set data" by force
    then show ?thesis by (intro Max_ge) simp_all
  qed
  then have "\<forall>(key, val) \<in> set data. length (replicate (?L - length key) (CHR '' '') @ key) = ?L"
    by auto
  moreover from assms(2) have "\<forall>item \<in> set data. fits max_str_digits (snd item)"
    by auto
  from detail_view_fits [OF assms(1) this]
  have "detail_view max_str_digits data =
          Inr (join nl
            ('''' #
             map (\<lambda>item. '' '' @ fmt_right ?L (fst item) @ '' : '' @ rendered (snd item)) data
             @ [nl]))" .
  ultimately show ?thesis
    by (simp only: r)
qed

theorem detail_view_rows_within_limit_witness:
  "[(''name'', Str_detail ''conda''), (''v'', Int_detail (- 12)), (''ok'', Bool_detail True)] \<noteq> []
   \<and> fits 4300 (Int_detail (- 12))
   \<and> detail_view 4300
       [(''name'', Str_detail ''conda''), (''v'', Int_detail (- 12)), (''ok'', Bool_detail True)]
     = Inr ''\<newline> name : conda\<newline>    v : -12\<newline>   ok : True\<newline>\<newline>''"
proof -
  let ?data =
    "[(''name'', Str_detail ''conda''), (''v'', Int_detail (- 12)), (''ok'', Bool_detail True)]"
  have ne: "?data \<noteq> []"
    by simp
  have small: "fits 4300 (Int_detail (- 12))"
    by code_simp
  then have all_fit: "\<forall>(key, val) \<in> set ?data. fits 4300 val"
    by simp
  have longest: "Max (length ` fst ` set ?data) = 4"
    by simp
  have vals: "decimal (- 12) = ''-12''"
    by code_simp
  have pads: "replicate 3 (CHR '' '') = ''   ''" "replicate 2 (CHR '' '') = ''  ''"
    by code_simp+
  from small detail_view_rows_within_limit [OF ne all_fit] show ?thesis
    by (simp add: longest vals pads nl_def)
qed

text \<open>
  Claim C2 as stated covers every non-empty mapping. Under the default limit of 4300
  digits the mapping \<^verbatim>\<open>{'k': 10**4300}\<close>, whose value has 4301 digits, gets no rows: the
  f-string of its row raises \<open>ValueError\<close>.
\<close>

theorem detail_view_rows_counterexample:
  "detail_view 4300 [(''k'', Int_detail (10 ^ 4300))] = Inl ValueError"
proof (rule detail_view_unfit)
  show "(''k'', Int_detail (10 ^ 4300)) \<in> set [(''k'', Int_detail (10 ^ 4300))]"
    by (rule list.set_intros(1))
  have "(10::int) ^ 4300 \<le> \<bar>10 ^ 4300\<bar>"
    by (rule abs_ge_self)
  then have "\<not> fits 4300 (Int_detail (10 ^ 4300))"
    by (rule not_fits_over_limit [rotated]) simp
  then show "\<not> fits 4300 (snd (''k'', Int_detail (10 ^ 4300)))"
    unfolding snd_conv .
qed

text \<open>
  Claim C9, as it holds on the code. On the empty mapping \<open>detail_view\<close> fails with the
  \<open>ValueError\<close> of \<^verbatim>\<open>max\<close>. It returns a string exactly when the mapping has at least one key
  and every value fits the digit limit of the interpreter; every failure is a \<open>ValueError\<close>.
\<close>

theorem detail_view_returns_iff:
  "detail_view max_str_digits [] = Inl ValueError
   \<and> ((\<exists>s. detail_view max_str_digits data = Inr s) \<longleftrightarrow>
        data \<noteq> [] \<and> (\<forall>(key, val) \<in> set data. fits max_str_digits val))
   \<and> (detail_view max_str_digits data = Inl e \<longrightarrow> e = ValueError)"
proof -
  have empty: "detail_view max_str_digits [] = Inl ValueError"
    by (simp add: detail_view_def)
  have returns: "\<exists>s. detail_view max_str_digits data = Inr s"
    if "data \<noteq> []" "\<forall>(key, val) \<in> set data. fits max_str_digits val"
  proof -
    from that(2) have "\<forall>item \<in> set data. fits max_str_digits (snd item)"
      by auto
    from detail_view_fits [OF that(1) this] show ?thesis
      by blast
  qed
  have fails: "detail_view max_str_digits data = Inl ValueError"
    if "\<not> (\<forall>(key, val) \<in> set data. fits max_str_digits val)"
  proof -
    from that obtain item where "item \<in> set data" "\<not> fits max_str_digits (snd item)"
      by auto
    then show ?thesis
      by (rule detail_view_unfit)
  qed
  have "(\<exists>s. detail_view max_str_digits data = Inr s) \<longleftrightarrow>
        data \<noteq> [] \<and> (\<forall>(key, val) \<in> set data. fits max_str_digits val)"
  proof
    assume returned: "\<exists>s. detail_view max_str_digits data = Inr s"
    with empty have "data \<noteq> []"
      by auto
    moreover have "\<forall>(key, val) \<in> set data. fits max_str_digits val"
    proof (rule ccontr)
      assume "\<not> (\<forall>(key, val) \<in> set data. fits max_str_digits val)"
      from fails [OF this] returned show False
        by simp
    qed
    ultimately show "data \<noteq> [] \<and> (\<forall>(key, val) \<in> set data. fits max_str_digits val)"
      by blast
  next
    assume "data \<noteq> [] \<and> (\<forall>(key, val) \<in> set data. fits max_str_digits val)"
    with returns show "\<exists>s. detail_view max_str_digits data = Inr s"
      by blast
  qed
  with empty detail_view_error [of max_str_digits data e] show ?thesis
    by blast
qed

theorem detail_view_returns_iff_witness:
  "detail_view 4300 [] = Inl ValueError
   \<and> [(''name'', Str_detail ''conda''), (''size'', Int_detail 1024)] \<noteq> []
   \<and> fits 4300 (Int_detail 1024)
   \<and> (\<exists>s. detail_view 4300 [(''name'', Str_detail ''conda''), (''size'', Int_detail 1024)] = Inr s)"
proof -
  have small: "fits 4300 (Int_detail 1024)"
    by code_simp
  then have "[(''name'', Str_detail ''conda''), (''size'', Int_detail 1024)] \<noteq> []
    \<and> (\<forall>(key, val) \<in> set [(''name'', Str_detail ''conda''), (''size'', Int_detail 1024)].
          fits 4300 val)"
    by simp
  with small
    detail_view_returns_iff
      [of 4300 "[(''name'', Str_detail ''conda''), (''size'', Int_detail 1024)]" ValueError]
  show ?thesis
    by simp
qed

text \<open>
  Claim C9 as stated promises a string for every mapping with at least one key. Under the
  default limit of 4300 digits the mapping \<^verbatim>\<open>{'name': 'conda', 'size': -10**4300}\<close> has two
  keys, and \<open>detail_view\<close> raises \<open>ValueError\<close> on it.
\<close>

theorem detail_view_nonempty_counterexample:
  "detail_view 4300 [(''name'', Str_detail ''conda''), (''size'', Int_detail (- (10 ^ 4300)))]
   = Inl ValueError"
proof (rule detail_view_unfit)
  show "(''size'', Int_detail (- (10 ^ 4300)))
      \<in> set [(''name'', Str_detail ''conda''), (''size'', Int_detail (- (10 ^ 4300)))]"
    by (rule list.set_intros(2), rule list.set_intros(1))
  have "(10::int) ^ 4300 \<le> \<bar>- (10 ^ 4300)\<bar>"
    by (simp only: abs_minus_cancel abs_ge_self)
  then have "\<not> fits 4300 (Int_detail (- (10 ^ 4300)))"
    by (rule not_fits_over_limit [rotated]) simp
  then show "\<not> fits 4300 (snd (''size'', Int_detail (- (10 ^ 4300))))"
    unfolding snd_conv .
qed

section \<open>The quiet progress bar\<close>

text \<open>
  Claim C5. Constructing a \<open>QuietProgressBar\<close> adds exactly one call to the trace, the write
  of \<^verbatim>\<open>'...downloading {description}...\n'\<close> to the sink; \<open>update_to\<close>, \<open>refresh\<close> and \<open>close\<close>
  leave the bar and the trace as they are, in every later world.
\<close>

theorem QuietProgressBar_writes_one_line:
  "QuietProgressBar_init d io w =
     (\<lparr>description = d, io_context_manager = io\<rparr>,
      w @ [Write io (''...downloading '' @ d @ ''...\<newline>'')])
   \<and> Quiet_update_to bar fraction w' = (bar, w')
   \<and> Quiet_refresh bar w' = (bar, w')
   \<and> Quiet_close bar w' = (bar, w')"
  by (simp add: QuietProgressBar_init_def Quiet_update_to_def Quiet_refresh_def Quiet_close_def
      nl_def)

section \<open>The interactive progress bar\<close>

text \<open>
  Claim C8. The constructor binds \<open>self.progress\<close> to the first \<open>Progress\<close> of the list, in
  list order: whatever follows it, further widgets included, is ignored, and the task is
  added to that widget. By \<open>first_progress_split\<close> every list holding a \<open>Progress\<close> splits
  in this way.
\<close>

theorem RichProgressBar_init_takes_first_progress:
  assumes "cms = before @ Progress p # after" and "\<forall>q. Progress q \<notin> set before"
  shows "RichProgressBar_init d io (Some cms) w =
           (Inr \<lparr>description = d, io_context_manager = io, progress = Some p,
                 task = length (filter (adds_task_on p) w)\<rparr>,
            w @ [Add_task p d 1])"
  using assms
  by (simp add: RichProgressBar_init_def find_progress_first add_task_def)

theorem RichProgressBar_init_takes_first_progress_witness:
  "RichProgressBar_init ''numpy'' 0 (Some [Other_manager 3, Progress 7, Other_manager 4, Progress 9])
     [Add_task 7 ''scipy'' 1]
   = (Inr \<lparr>description = ''numpy'', io_context_manager = 0, progress = Some 7, task = 1\<rparr>,
      [Add_task 7 ''scipy'' 1, Add_task 7 ''numpy'' 1])"
  using RichProgressBar_init_takes_first_progress
    [of "[Other_manager 3, Progress 7, Other_manager 4, Progress 9]" "[Other_manager 3]" 7
       "[Other_manager 4, Progress 9]" "''numpy''" 0 "[Add_task 7 ''scipy'' 1]"]
  by simp

text \<open>
  Claim C4. Given a list without any \<open>Progress\<close>, the constructor raises \<open>CondaError\<close> and
  the trace is unchanged: no task has been added. Given a list, this is the only way the
  constructor fails, and the only way \<open>progress_bar\<close> fails; \<open>detail_view\<close> never raises a
  \<open>CondaError\<close>. The remaining operations have no error result at all.
\<close>

theorem RichProgressBar_init_fails_without_progress:
  "((\<forall>p. Progress p \<notin> set cms) \<longrightarrow>
      RichProgressBar_init d io (Some cms) w =
        (Inl (CondaError ''Rich is configured, but there is no progress bar available''), w))
   \<and> (fst (RichProgressBar_init d io (Some cms) w) = Inl e \<longrightarrow>
        e = CondaError ''Rich is configured, but there is no progress bar available''
        \<and> (\<forall>p. Progress p \<notin> set cms)
        \<and> snd (RichProgressBar_init d io (Some cms) w) = w)
   \<and> (fst (progress_bar ctx d io (Some cms) w) = Inl e \<longrightarrow>
        \<not> quiet ctx
        \<and> e = CondaError ''Rich is configured, but there is no progress bar available''
        \<and> (\<forall>p. Progress p \<notin> set cms)
        \<and> snd (progress_bar ctx d io (Some cms) w) = w)
   \<and> detail_view max_str_digits data \<noteq> Inl (CondaError msg)"
proof -
  have dv: "detail_view max_str_digits data \<noteq> Inl (CondaError msg)"
    using detail_view_error [of max_str_digits data "CondaError msg"] by auto
  have init: "RichProgressBar_init d io (Some cms) w =
      (case find_progress cms of
         None \<Rightarrow> (Inl (CondaError ''Rich is configured, but there is no progress bar available''), w)
       | Some p \<Rightarrow>
           (Inr \<lparr>description = d, io_context_manager = io, progress = Some p,
                 task = length (filter (adds_task_on p) w)\<rparr>, w @ [Add_task p d 1]))"
    by (simp add: RichProgressBar_init_def add_task_def split: option.splits)
  show ?thesis
  proof (cases "find_progress cms")
    case None
    then have "\<forall>p. Progress p \<notin> set cms"
      by (simp add: find_progress_None)
    with None dv show ?thesis
      by (simp add: init progress_bar_def QuietProgressBar_init_def)
  next
    case (Some p)
    then have "\<not> (\<forall>p. Progress p \<notin> set cms)"
      using find_progress_None [of cms] by simp
    with Some dv show ?thesis
      by (simp add: init progress_bar_def QuietProgressBar_init_def)
  qed
qed

theorem RichProgressBar_init_fails_without_progress_witness:
  "Progress 7 \<notin> set [Other_manager 3, Other_manager 4]
   \<and> RichProgressBar_init ''numpy'' 0 (Some [Other_manager 3, Other_manager 4])
       [Add_task 7 ''scipy'' 1]
     = (Inl (CondaError ''Rich is configured, but there is no progress bar available''),
        [Add_task 7 ''scipy'' 1])
   \<and> fst (progress_bar
       \<lparr>active_prefix = None, root_prefix = ''/opt/conda'', envs_dirs = [], quiet = False\<rparr>
       ''numpy'' 0 (Some [Other_manager 3, Other_manager 4]) [Add_task 7 ''scipy'' 1])
     = Inl (CondaError ''Rich is configured, but there is no progress bar available'')
   \<and> snd (progress_bar
       \<lparr>active_prefix = None, root_prefix = ''/opt/conda'', envs_dirs = [], quiet = False\<rparr>
       ''numpy'' 0 (Some [Other_manager 3, Other_manager 4]) [Add_task 7 ''scipy'' 1])
     = [Add_task 7 ''scipy'' 1]"
proof -
  have none: "\<forall>p. Progress p \<notin> set [Other_manager 3, Other_manager 4]"
    by simp
  have pb: "fst (progress_bar
       \<lparr>active_prefix = None, root_prefix = ''/opt/conda'', envs_dirs = [], quiet = False\<rparr>
       ''numpy'' 0 (Some [Other_manager 3, Other_manager 4]) [Add_task 7 ''scipy'' 1])
     = Inl (CondaError ''Rich is configured, but there is no progress bar available'')"
    by (simp add: progress_bar_def RichProgressBar_init_def)
  from none pb
    RichProgressBar_init_fails_without_progress
      [of "[Other_manager 3, Other_manager 4]" "''numpy''" 0 "[Add_task 7 ''scipy'' 1]"
         "CondaError ''Rich is configured, but there is no progress bar available''"
         "\<lparr>active_prefix = None, root_prefix = ''/opt/conda'', envs_dirs = [], quiet = False\<rparr>"]
  show ?thesis
    by simp
qed

text \<open>
  Claim C6. With the widget set, \<open>update_to(1)\<close> first updates the task with
  \<^verbatim>\<open>completed=1\<close> and then with \<^verbatim>\<open>visible=False\<close>: these two calls, in this order, and
  nothing else.
\<close>

theorem Rich_update_to_one_hides_task:
  assumes "progress self = Some p"
  shows "Rich_update_to self 1 w =
           (self, w @ [Update_completed p (task self) 1, Update_visible p (task self) False])"
  using assms by (simp add: Rich_update_to_def)

theorem Rich_update_to_one_hides_task_witness:
  "progress \<lparr>description = ''numpy'', io_context_manager = 0, progress = Some 7, task = 1\<rparr>
     = Some 7
   \<and> Rich_update_to
       \<lparr>description = ''numpy'', io_context_manager = 0, progress = Some 7, task = 1\<rparr> 1
       [Add_task 7 ''scipy'' 1, Add_task 7 ''numpy'' 1]
     = (\<lparr>description = ''numpy'', io_context_manager = 0, progress = Some 7, task = 1\<rparr>,
        [Add_task 7 ''scipy'' 1, Add_task 7 ''numpy'' 1, Update_completed 7 1 1,
         Update_visible 7 1 False])"
proof -
  have set: "progress
      \<lparr>description = ''numpy'', io_context_manager = 0, progress = Some 7, task = 1\<rparr> = Some 7"
    by simp
  from Rich_update_to_one_hides_task [OF set, of "[Add_task 7 ''scipy'' 1, Add_task 7 ''numpy'' 1]"]
  show ?thesis by simp
qed

text \<open>
  Claim C10. For a fraction other than 1, \<open>update_to\<close> makes the one call that sets the
  completed amount (none when no widget is set) and no call that sets the visibility.
  Neither do \<open>close\<close>, \<open>refresh\<close> and the constructor: the only call with
  \<^verbatim>\<open>visible=...\<close> is the one of \<open>update_to(1)\<close>.
\<close>

theorem Rich_update_to_keeps_visibility:
  assumes "fraction \<noteq> 1"
  shows "Rich_update_to self fraction w =
           (self,
            w @ (case progress self of
                   None \<Rightarrow> []
                 | Some p \<Rightarrow> [Update_completed p (task self) fraction]))
    \<and> filter sets_visibility (snd (Rich_update_to self fraction w)) = filter sets_visibility w
    \<and> filter sets_visibility (snd (Rich_close self w)) = filter sets_visibility w
    \<and> filter sets_visibility (snd (Rich_refresh self w)) = filter sets_visibility w
    \<and> filter sets_visibility (snd (RichProgressBar_init d io kwargs w)) = filter sets_visibility w"
proof -
  have "filter sets_visibility (snd (RichProgressBar_init d io kwargs w)) = filter sets_visibility w"
    by (simp add: RichProgressBar_init_def add_task_def split: option.splits)
  with assms show ?thesis
    by (simp add: Rich_update_to_def Rich_close_def Rich_refresh_def split: option.splits)
qed

theorem Rich_update_to_keeps_visibility_witness:
  "(1 / 2 :: rat) \<noteq> 1
   \<and> Rich_update_to
       \<lparr>description = ''numpy'', io_context_manager = 0, progress = Some 7, task = 1\<rparr> (1 / 2)
       [Add_task 7 ''scipy'' 1, Add_task 7 ''numpy'' 1]
     = (\<lparr>description = ''numpy'', io_context_manager = 0, progress = Some 7, task = 1\<rparr>,
        [Add_task 7 ''scipy'' 1, Add_task 7 ''numpy'' 1, Update_completed 7 1 (1 / 2)])"
proof -
  have half: "(1 / 2 :: rat) \<noteq> 1"
    by simp
  from half Rich_update_to_keeps_visibility
    [OF half,
      of "\<lparr>description = ''numpy'', io_context_manager = 0, progress = Some 7, task = 1\<rparr>"
        "[Add_task 7 ''scipy'' 1, Add_task 7 ''numpy'' 1]"]
  show ?thesis by simp
qed

section \<open>Choosing the progress bar\<close>

text \<open>
  Claim C7. \<open>progress_bar\<close> looks at \<open>context.quiet\<close> only. When it is set, the result is the
  \<open>QuietProgressBar\<close> constructed from the description and the sink. Otherwise the result is
  that of the \<open>RichProgressBar\<close> constructor on the description, the sink and the keyword
  arguments: the bar it returns, holding the description and the sink as passed, which it
  does whenever the keyword arguments supply a list with a \<open>Progress\<close>, or else its error.
\<close>

theorem progress_bar_dispatch:
  "(quiet ctx \<longrightarrow>
      (\<exists>bar w'. QuietProgressBar_init d io w = (bar, w')
         \<and> progress_bar ctx d io kwargs w = (Inr (Quiet bar), w')
         \<and> description bar = d \<and> io_context_manager bar = io))
   \<and> (\<not> quiet ctx \<longrightarrow>
        (case RichProgressBar_init d io kwargs w of
           (Inl e, w') \<Rightarrow> progress_bar ctx d io kwargs w = (Inl e, w')
         | (Inr bar, w') \<Rightarrow>
             progress_bar ctx d io kwargs w = (Inr (Rich bar), w')
             \<and> description bar = d \<and> io_context_manager bar = io))
   \<and> (\<not> quiet ctx \<and> kwargs = Some cms \<and> Progress p \<in> set cms \<longrightarrow>
        (\<exists>bar w'. progress_bar ctx d io kwargs w = (Inr (Rich bar), w')
           \<and> description bar = d \<and> io_context_manager bar = io))"
proof -
  have q: "quiet ctx \<longrightarrow>
      (\<exists>bar w'. QuietProgressBar_init d io w = (bar, w')
         \<and> progress_bar ctx d io kwargs w = (Inr (Quiet bar), w')
         \<and> description bar = d \<and> io_context_manager bar = io)"
    by (simp add: progress_bar_def QuietProgressBar_init_def)
  have fields: "description bar = d \<and> io_context_manager bar = io"
    if "RichProgressBar_init d io kwargs w = (Inr bar, w')" for bar w'
    using that
    by (auto simp: RichProgressBar_init_def add_task_def split: option.splits)
  have r: "\<not> quiet ctx \<longrightarrow>
        (case RichProgressBar_init d io kwargs w of
           (Inl e, w') \<Rightarrow> progress_bar ctx d io kwargs w = (Inl e, w')
         | (Inr bar, w') \<Rightarrow>
             progress_bar ctx d io kwargs w = (Inr (Rich bar), w')
             \<and> description bar = d \<and> io_context_manager bar = io)"
    using fields
    by (auto simp: progress_bar_def split: prod.splits sum.splits)
  have s: "\<exists>bar w'. progress_bar ctx d io kwargs w = (Inr (Rich bar), w')
           \<and> description bar = d \<and> io_context_manager bar = io"
    if "\<not> quiet ctx" "kwargs = Some cms" "Progress p \<in> set cms"
  proof -
    from first_progress_split [OF that(3)] obtain before p' after
      where "cms = before @ Progress p' # after" "\<forall>r. Progress r \<notin> set before"
      by blast
    then have "find_progress cms = Some p'"
      by (simp add: find_progress_first)
    with that(1,2) show ?thesis
      by (simp add: progress_bar_def RichProgressBar_init_def add_task_def)
  qed
  from q r s show ?thesis by blast
qed

theorem progress_bar_dispatch_witness:
  "progress_bar
     \<lparr>active_prefix = None, root_prefix = ''/opt/conda'', envs_dirs = [], quiet = True\<rparr>
     ''numpy'' 0 (Some [Progress 7]) []
   = (Inr (Quiet \<lparr>description = ''numpy'', io_context_manager = 0\<rparr>),
      [Write 0 ''...downloading numpy...\<newline>''])
   \<and> progress_bar
     \<lparr>active_prefix = None, root_prefix = ''/opt/conda'', envs_dirs = [], quiet = False\<rparr>
     ''numpy'' 0 (Some [Progress 7]) []
   = (Inr (Rich \<lparr>description = ''numpy'', io_context_manager = 0, progress = Some 7, task = 0\<rparr>),
      [Add_task 7 ''numpy'' 1])"
proof -
  have quiet_bar: "QuietProgressBar_init ''numpy'' 0 [] =
      (\<lparr>description = ''numpy'', io_context_manager = 0\<rparr>,
       [Write 0 ''...downloading numpy...\<newline>''])"
    by (simp add: QuietProgressBar_init_def nl_def)
  have rich_bar: "RichProgressBar_init ''numpy'' 0 (Some [Progress 7]) [] =
      (Inr \<lparr>description = ''numpy'', io_context_manager = 0, progress = Some 7, task = 0\<rparr>,
       [Add_task 7 ''numpy'' 1])"
    by (simp add: RichProgressBar_init_def add_task_def)
  from progress_bar_dispatch
      [of "\<lparr>active_prefix = None, root_prefix = ''/opt/conda'', envs_dirs = [], quiet = True\<rparr>"
        "''numpy''" 0 "[]" "Some [Progress 7]" "[Progress 7]" 7]
    progress_bar_dispatch
      [of "\<lparr>active_prefix = None, root_prefix = ''/opt/conda'', envs_dirs = [], quiet = False\<rparr>"
        "''numpy''" 0 "[]" "Some [Progress 7]" "[Progress 7]" 7]
  show ?thesis
    by (simp add: quiet_bar rich_bar)
qed

end
